theory Spec2Isabelle
  imports Complex_Main
begin

section \<open>Card detector: data model\<close>

text \<open>
  The embedding follows \<open>cards.py\<close>. Everything the module computes itself (constants,
  filters, sorting, corner ordering, slicing, attribute updates, name lookup) is
  written out. The numeric kernels of the OpenCV library (blurring, contour tracing,
  polygon approximation, Otsu's level, interpolation) are not part of the repository;
  they are collected in the record \<open>opencv\<close> and every function takes it as its first
  argument, so each theorem holds whatever those kernels compute.
\<close>

datatype error =
    NameError string    \<comment> \<open>a name that is bound nowhere\<close>
  | IndexError          \<comment> \<open>an index outside a sequence\<close>
  | ValueError          \<comment> \<open>\<open>argmin\<close>/\<open>argmax\<close> of an empty sequence\<close>
  | TypeError           \<comment> \<open>subscripting \<open>None\<close>\<close>
  | CvError             \<comment> \<open>an assertion of the OpenCV library\<close>

type_synonym point = "int \<times> int"
type_synonym contour = "point list"

text \<open>One row of the hierarchy array of \<open>findContours\<close>: next, previous, first child, parent.\<close>

type_synonym hier_row = "int \<times> int \<times> int \<times> int"

fun parent :: "hier_row \<Rightarrow> int" where
  "parent (nxt, prv, child, par) = par"

text \<open>
  An image is its shape and its pixels (row, column, channel). A colour image has 3
  channels, a grey or binary one has 1.
\<close>

record image =
  rows :: nat
  cols :: nat
  channels :: nat
  pix :: "nat \<Rightarrow> nat \<Rightarrow> nat \<Rightarrow> nat"

record opencv =
  gray_of :: "nat \<Rightarrow> nat \<Rightarrow> nat \<Rightarrow> nat"
  blur_pix :: "image \<Rightarrow> nat \<Rightarrow> nat \<Rightarrow> nat"
  findContours :: "image \<Rightarrow> contour list \<times> hier_row list option"
  contourArea :: "contour \<Rightarrow> real"
  arcLength :: "contour \<Rightarrow> real"
  approxPolyDP :: "contour \<Rightarrow> real \<Rightarrow> point list"
  otsu_level :: "image \<Rightarrow> nat"
  warp_pix :: "image \<Rightarrow> point list \<Rightarrow> nat \<Rightarrow> nat \<Rightarrow> nat \<Rightarrow> nat"
  resize_pix :: "image \<Rightarrow> nat \<Rightarrow> nat \<Rightarrow> nat"

subsection \<open>Constants\<close>

definition CARD_MAX_AREA :: real where "CARD_MAX_AREA = 6000"
definition CARD_MIN_AREA :: real where "CARD_MIN_AREA = 3500"
definition CORNER_HEIGHT :: int where "CORNER_HEIGHT = 70"
definition CORNER_WIDTH :: int where "CORNER_WIDTH = 45"
definition RANK_HEIGHT :: nat where "RANK_HEIGHT = 125"
definition RANK_WIDTH :: nat where "RANK_WIDTH = 70"
definition POLY_ACC_CONST :: real where "POLY_ACC_CONST = 0.01"
definition CARD_THRESH :: nat where "CARD_THRESH = 200"
definition RANK_THRESH :: nat where "RANK_THRESH = 30"

subsection \<open>Structures\<close>

text \<open>
  Class \<open>card\<close>. The attributes \<open>img\<close> and \<open>rank_img\<close> start as the empty list, here
  \<open>None\<close>. \<open>width\<close> and \<open>height\<close> are not created by the constructor: \<open>process_card\<close>
  adds them, so they are \<open>None\<close> until then.
\<close>

record card =
  contour :: contour
  corner_pts :: "point list"
  center :: "int list"
  img :: "image option"
  rank_img :: "image option"
  best_rank_match :: string
  rank_diff :: int
  width :: "int option"
  height :: "int option"

definition card_init :: card where
  "card_init = \<lparr>contour = [], corner_pts = [], center = [], img = None, rank_img = None,
     best_rank_match = ''Unknown'', rank_diff = 0, width = None, height = None\<rparr>"

text \<open>Class \<open>rank\<close>: a name and the template image, \<open>None\<close> when \<open>imread\<close> gave none.\<close>

record rank =
  rank :: string
  template_img :: "image option"

section \<open>Rank classifier: \<open>get_card_rank\<close>\<close>

text \<open>
  The body of \<open>get_card_rank\<close> is the single statement
  \<open>return rank_image, rank_match, match_score\<close>. Python evaluates the three names from
  left to right in the local scope (the parameter \<open>card_img\<close>) and then in the module's
  global scope; a name bound in neither raises \<open>NameError\<close>.
\<close>

datatype pyval =
    PInt int
  | PReal real
  | PObj string
  | PTuple "pyval list"

definition module_globals :: "(string \<times> pyval) list" where
  "module_globals =
    [(''cv2'', PObj ''module''), (''os'', PObj ''module''), (''copy'', PObj ''module''),
     (''np'', PObj ''module''), (''plt'', PObj ''module''),
     (''CARD_MAX_AREA'', PInt 6000), (''CARD_MIN_AREA'', PInt 3500),
     (''CORNER_HEIGHT'', PInt 70), (''CORNER_WIDTH'', PInt 45),
     (''RANK_HEIGHT'', PInt 125), (''RANK_WIDTH'', PInt 70),
     (''POLY_ACC_CONST'', PReal 0.01),
     (''CARD_THRESH'', PInt 200), (''RANK_THRESH'', PInt 30),
     (''card'', PObj ''class''), (''rank'', PObj ''class''),
     (''get_card_contours'', PObj ''function''), (''process_card'', PObj ''function''),
     (''get_card_rank'', PObj ''function''), (''load_ranks'', PObj ''function''),
     (''flattener'', PObj ''function'')]"

definition load_name :: "(string \<times> pyval) list \<Rightarrow> string \<Rightarrow> error + pyval" where
  "load_name scope n = (case map_of scope n of None \<Rightarrow> Inl (NameError n) | Some v \<Rightarrow> Inr v)"

fun load_names :: "(string \<times> pyval) list \<Rightarrow> string list \<Rightarrow> error + pyval list" where
  "load_names scope [] = Inr []"
| "load_names scope (n # ns) =
     (case load_name scope n of
        Inl e \<Rightarrow> Inl e
      | Inr v \<Rightarrow> (case load_names scope ns of Inl e \<Rightarrow> Inl e | Inr vs \<Rightarrow> Inr (v # vs)))"

definition get_card_rank :: "pyval \<Rightarrow> error + pyval" where
  "get_card_rank card_img =
     (case load_names ((''card_img'', card_img) # module_globals)
             [''rank_image'', ''rank_match'', ''match_score''] of
        Inl e \<Rightarrow> Inl e
      | Inr vs \<Rightarrow> Inr (PTuple vs))"

section \<open>Shape extractor: \<open>get_card_contours\<close>\<close>

text \<open>
  \<open>sorted(xs, key=k, reverse=True)\<close>: CPython reverses the list, sorts it with its
  stable ascending sort and reverses the result.
\<close>

definition py_sorted_rev :: "('a \<Rightarrow> 'k::linorder) \<Rightarrow> 'a list \<Rightarrow> 'a list" where
  "py_sorted_rev key xs = rev (sort_key key (rev xs))"

text \<open>
  Lines 57 to 81: grey conversion, blur, fixed threshold, contour tracing. The grey
  conversion asserts a non-empty source with 3 or 4 channels. The \<open>imshow\<close> and
  \<open>waitKey\<close> calls only display and are left out.
\<close>

definition cvtColor_BGR2GRAY :: "opencv \<Rightarrow> image \<Rightarrow> error + image" where
  "cvtColor_BGR2GRAY cv im =
     (if rows im = 0 \<or> cols im = 0 then Inl CvError
      else if channels im = 3 \<or> channels im = 4
      then Inr \<lparr>rows = rows im, cols = cols im, channels = 1,
                pix = (\<lambda>r c ch. gray_of cv (pix im r c 0) (pix im r c 1) (pix im r c 2))\<rparr>
      else Inl CvError)"

definition GaussianBlur :: "opencv \<Rightarrow> image \<Rightarrow> image" where
  "GaussianBlur cv im = im\<lparr>pix := (\<lambda>r c ch. blur_pix cv im r c)\<rparr>"

definition threshold_binary :: "image \<Rightarrow> nat \<Rightarrow> nat \<Rightarrow> image" where
  "threshold_binary im level maxval =
     im\<lparr>pix := (\<lambda>r c ch. if pix im r c ch > level then maxval else 0)\<rparr>"

definition find_boundaries :: "opencv \<Rightarrow> image \<Rightarrow> error + contour list \<times> hier_row list option" where
  "find_boundaries cv im =
     (case cvtColor_BGR2GRAY cv im of
        Inl e \<Rightarrow> Inl e
      | Inr gray \<Rightarrow>
          let blur = GaussianBlur cv gray;
              thresh_level = CARD_THRESH;
              thresh = threshold_binary blur thresh_level 255
          in Inr (findContours cv thresh))"

text \<open>
  Line 82: the indices of the contours, sorted by descending area.
\<close>

definition index_sort :: "opencv \<Rightarrow> contour list \<Rightarrow> nat list" where
  "index_sort cv cnts = py_sorted_rev (\<lambda>i. contourArea cv (cnts ! i)) [0..<length cnts]"

text \<open>
  Lines 95 to 97, the first loop of the \<open>try\<close> block. \<open>hier\<close> is \<open>None\<close> when
  \<open>findContours\<close> found nothing, and \<open>hier[0][i]\<close> then raises; so does an index outside
  the array. The result \<open>None\<close> stands for the exception.
\<close>

fun fill_sorted ::
  "contour list \<Rightarrow> hier_row list option \<Rightarrow> nat list \<Rightarrow> (contour list \<times> hier_row list) option" where
  "fill_sorted cnts hier [] = Some ([], [])"
| "fill_sorted cnts hier (i # js) =
     (case hier of
        None \<Rightarrow> None
      | Some h \<Rightarrow>
          if i < length cnts \<and> i < length h
          then (case fill_sorted cnts hier js of
                  None \<Rightarrow> None
                | Some (cs, hs) \<Rightarrow> Some (cnts ! i # cs, h ! i # hs))
          else None)"

text \<open>Lines 115 and 116: the test that makes a contour a card.\<close>

definition is_card :: "real \<Rightarrow> point list \<Rightarrow> hier_row \<Rightarrow> bool" where
  "is_card sz approx h \<longleftrightarrow>
     sz < CARD_MAX_AREA \<and> sz > CARD_MIN_AREA \<and> length approx = 4 \<and> parent h = - 1"

definition new_card :: "contour \<Rightarrow> point list \<Rightarrow> card" where
  "new_card c approx = card_init\<lparr>contour := c, corner_pts := approx\<rparr>"

text \<open>Lines 100 to 122, the second loop: it walks both sorted lists in step.\<close>

fun card_loop :: "opencv \<Rightarrow> contour list \<Rightarrow> hier_row list \<Rightarrow> card list" where
  "card_loop cv (c # cs) (h # hs) =
     (let sz = contourArea cv c;
          peri = arcLength cv c;
          accuracy = POLY_ACC_CONST * peri;
          approx = approxPolyDP cv c accuracy
      in if is_card sz approx h
         then new_card c approx # card_loop cv cs hs
         else card_loop cv cs hs)"
| "card_loop cv cs hs = []"

text \<open>
  Lines 82 to 136. An exception inside the \<open>try\<close> block is swallowed by
  \<open>except: pass\<close>; it can only come from the first loop, when \<open>card_info\<close> is still empty.
\<close>

definition cards_from_contours :: "opencv \<Rightarrow> contour list \<Rightarrow> hier_row list option \<Rightarrow> card list" where
  "cards_from_contours cv cnts hier =
     (case fill_sorted cnts hier (index_sort cv cnts) of
        None \<Rightarrow> []
      | Some (cnts_sort, hier_sort) \<Rightarrow> card_loop cv cnts_sort hier_sort)"

definition get_card_contours :: "opencv \<Rightarrow> image \<Rightarrow> error + card list" where
  "get_card_contours cv im =
     (case find_boundaries cv im of
        Inl e \<Rightarrow> Inl e
      | Inr (cnts, hier) \<Rightarrow> Inr (cards_from_contours cv cnts hier))"

section \<open>Perspective normalizer: \<open>flattener\<close>\<close>

text \<open>
  \<open>np.argmin\<close> and \<open>np.argmax\<close> scan the flattened array once and keep the first
  extremum; on an empty array they raise \<open>ValueError\<close>.
\<close>

fun argmin_scan :: "int list \<Rightarrow> nat \<Rightarrow> nat \<Rightarrow> int \<Rightarrow> nat" where
  "argmin_scan [] i bi bv = bi"
| "argmin_scan (x # xs) i bi bv =
     (if x < bv then argmin_scan xs (Suc i) i x else argmin_scan xs (Suc i) bi bv)"

fun argmax_scan :: "int list \<Rightarrow> nat \<Rightarrow> nat \<Rightarrow> int \<Rightarrow> nat" where
  "argmax_scan [] i bi bv = bi"
| "argmax_scan (x # xs) i bi bv =
     (if x > bv then argmax_scan xs (Suc i) i x else argmax_scan xs (Suc i) bi bv)"

fun np_argmin :: "int list \<Rightarrow> error + nat" where
  "np_argmin [] = Inl ValueError"
| "np_argmin (x # xs) = Inr (argmin_scan xs 1 0 x)"

fun np_argmax :: "int list \<Rightarrow> error + nat" where
  "np_argmax [] = Inl ValueError"
| "np_argmax (x # xs) = Inr (argmax_scan xs 1 0 x)"

text \<open>
  \<open>np.sum(pts, axis = 2)\<close> is \<open>x + y\<close> for each point, and \<open>np.diff(pts, axis = -1)\<close>
  is the second coordinate minus the first, \<open>y - x\<close>. The corner points are the
  integer pixel coordinates of \<open>approxPolyDP\<close> stored as 32-bit floats, which hold them
  and their sums and differences exactly.
\<close>

definition pt_sum :: "point \<Rightarrow> int" where
  "pt_sum p = fst p + snd p"

definition pt_diff :: "point \<Rightarrow> int" where
  "pt_diff p = snd p - fst p"

text \<open>
  The design document instead writes \<open>diff = x - y\<close> for each corner point.
  \<open>pt_diff_spec\<close> is that reading, to be compared with the difference the code takes.
\<close>

definition pt_diff_spec :: "point \<Rightarrow> int" where
  "pt_diff_spec p = fst p - snd p"

text \<open>
  Lines 210 to 219: the four extrema \<open>(tl, tr, br, bl)\<close>.
\<close>

definition extrema :: "point list \<Rightarrow> error + point \<times> point \<times> point \<times> point" where
  "extrema pts =
     (let s = map pt_sum pts in
      case np_argmin s of Inl e \<Rightarrow> Inl e | Inr i_tl \<Rightarrow>
      case np_argmax s of Inl e \<Rightarrow> Inl e | Inr i_br \<Rightarrow>
      let diff = map pt_diff pts in
      case np_argmin diff of Inl e \<Rightarrow> Inl e | Inr i_tr \<Rightarrow>
      case np_argmax diff of Inl e \<Rightarrow> Inl e | Inr i_bl \<Rightarrow>
        Inr (pts ! i_tl, pts ! i_tr, pts ! i_br, pts ! i_bl))"

text \<open>
  The three tests on the bounding width and height, which \<open>boundingRect\<close> returns as
  integers. The products \<open>0.8*h\<close> and \<open>1.2*h\<close> are taken over the reals; for integers
  of the size of image coordinates the double-precision products compare with \<open>w\<close> in
  the same way.
\<close>

definition is_vertical :: "int \<Rightarrow> int \<Rightarrow> bool" where
  "is_vertical w h \<longleftrightarrow> real_of_int w \<le> 0.8 * real_of_int h"

definition is_horizontal :: "int \<Rightarrow> int \<Rightarrow> bool" where
  "is_horizontal w h \<longleftrightarrow> real_of_int w \<ge> 1.2 * real_of_int h"

definition is_diamond :: "int \<Rightarrow> int \<Rightarrow> bool" where
  "is_diamond w h \<longleftrightarrow> real_of_int w > 0.8 * real_of_int h \<and> real_of_int w < 1.2 * real_of_int h"

text \<open>
  The design document names the three cases and reads them as one classification:
  vertical when \<open>width \<le> 0.8 \<times> height\<close>, horizontal when \<open>width \<ge> 1.2 \<times> height\<close>,
  diamond otherwise. \<open>orientation_spec\<close> is that reading, to be compared with the three
  independent tests of the code.
\<close>

datatype orientation = Vertical | Horizontal | Diamond

definition orientation_spec :: "int \<Rightarrow> int \<Rightarrow> orientation" where
  "orientation_spec w h =
     (if real_of_int w \<le> 0.8 * real_of_int h then Vertical
      else if real_of_int w \<ge> 1.2 * real_of_int h then Horizontal
      else Diamond)"

text \<open>
  Lines 210 to 260: \<open>temp_rect\<close> starts as four zero points and is overwritten by each
  \<open>if\<close> whose test holds, in the order of the source. \<open>pts[1]\<close> and \<open>pts[3]\<close> raise
  \<open>IndexError\<close> on fewer than four points.
\<close>

definition order_points :: "point list \<Rightarrow> int \<Rightarrow> int \<Rightarrow> error + point list" where
  "order_points pts w h =
     (case extrema pts of
        Inl e \<Rightarrow> Inl e
      | Inr (tl_pt, tr_pt, br_pt, bl_pt) \<Rightarrow>
          let temp_rect0 = replicate 4 (0, 0);
              temp_rect1 = (if is_vertical w h then [tl_pt, tr_pt, br_pt, bl_pt] else temp_rect0);
              temp_rect2 = (if is_horizontal w h then [bl_pt, tl_pt, tr_pt, br_pt] else temp_rect1)
          in if is_diamond w h
             then if length pts < 4 then Inl IndexError
                  else
                    let temp_rect3 =
                          (if snd (pts ! 1) \<le> snd (pts ! 3)
                           then [pts ! 1, pts ! 0, pts ! 3, pts ! 2] else temp_rect2);
                        temp_rect4 =
                          (if snd (pts ! 1) > snd (pts ! 3)
                           then [pts ! 0, pts ! 3, pts ! 2, pts ! 1] else temp_rect3)
                    in Inr temp_rect4
             else Inr temp_rect2)"

text \<open>
  Lines 262 to 272. The transform matrix is a function of \<open>temp_rect\<close> and the fixed
  destination rectangle, so the warped pixels are given by the kernel from \<open>temp_rect\<close>.
  \<open>warpPerspective\<close> asserts a non-empty source and returns an image of the requested
  size \<open>(width, height)\<close> with the channels of the source.
\<close>

definition warpPerspective :: "opencv \<Rightarrow> image \<Rightarrow> point list \<Rightarrow> nat \<times> nat \<Rightarrow> error + image" where
  "warpPerspective cv im temp_rect dsize =
     (if rows im = 0 \<or> cols im = 0 then Inl CvError
      else Inr \<lparr>rows = snd dsize, cols = fst dsize, channels = channels im,
                pix = warp_pix cv im temp_rect\<rparr>)"

definition flattener :: "opencv \<Rightarrow> image \<Rightarrow> point list \<Rightarrow> int \<Rightarrow> int \<Rightarrow> error + image" where
  "flattener cv im pts w h =
     (case order_points pts w h of
        Inl e \<Rightarrow> Inl e
      | Inr temp_rect \<Rightarrow>
          let maxWidth = 200; maxHeight = 300 in
          case warpPerspective cv im temp_rect (maxWidth, maxHeight) of
            Inl e \<Rightarrow> Inl e
          | Inr warp \<Rightarrow> cvtColor_BGR2GRAY cv warp)"

section \<open>Rank region extractor: \<open>process_card\<close>\<close>

text \<open>
  \<open>boundingRect\<close> of integer points: the least coordinates, and the extent counted in
  pixels (largest minus least plus one). The empty list a fresh card holds is not an
  array of points and is rejected.
\<close>

definition boundingRect :: "contour \<Rightarrow> error + int \<times> int \<times> int \<times> int" where
  "boundingRect c =
     (case c of
        [] \<Rightarrow> Inl TypeError
      | p # ps \<Rightarrow>
          let x0 = fold min (map fst ps) (fst p); x1 = fold max (map fst ps) (fst p);
              y0 = fold min (map snd ps) (snd p); y1 = fold max (map snd ps) (snd p)
          in Inr (x0, y0, x1 - x0 + 1, y1 - y0 + 1))"

text \<open>\<open>int(x)\<close> of a quotient: Python truncates towards zero.\<close>

definition trunc_div :: "int \<Rightarrow> int \<Rightarrow> int" where
  "trunc_div a n = (if a \<ge> 0 then a div n else - ((- a) div n))"

text \<open>
  Lines 146 to 150. With no corner points \<open>np.sum\<close> is a scalar and \<open>average[0]\<close>
  raises \<open>IndexError\<close>.
\<close>

definition card_center :: "point list \<Rightarrow> error + int list" where
  "card_center pts =
     (if pts = [] then Inl IndexError
      else let n = int (length pts);
               cent_x = trunc_div (sum_list (map fst pts)) n;
               cent_y = trunc_div (sum_list (map snd pts)) n
           in Inr [cent_x, cent_y])"

text \<open>
  A slice \<open>a:b\<close> of an axis of length \<open>n\<close>: a negative bound counts from the end, both
  bounds are clipped to the axis, and the slice is empty when the stop is not after the
  start.
\<close>

definition slice_bound :: "nat \<Rightarrow> int \<Rightarrow> nat" where
  "slice_bound n i = (if i < 0 then nat (max 0 (int n + i)) else min (nat i) n)"

definition crop :: "image \<Rightarrow> int \<Rightarrow> int \<Rightarrow> int \<Rightarrow> int \<Rightarrow> image" where
  "crop im r0 r1 c0 c1 =
     \<lparr>rows = slice_bound (rows im) r1 - slice_bound (rows im) r0,
      cols = slice_bound (cols im) c1 - slice_bound (cols im) c0,
      channels = channels im,
      pix = (\<lambda>r c ch. pix im (slice_bound (rows im) r0 + r) (slice_bound (cols im) c0 + c) ch)\<rparr>"

text \<open>Line 158: the corner of the card.\<close>

definition corner_crop :: "image \<Rightarrow> image" where
  "corner_crop warp = crop warp 0 CORNER_HEIGHT 0 CORNER_WIDTH"

text \<open>
  Line 163: Otsu's method chooses the level; the library accepts only a single-channel
  image there.
\<close>

definition threshold_otsu :: "opencv \<Rightarrow> image \<Rightarrow> error + image" where
  "threshold_otsu cv im =
     (if channels im = 1 then Inr (threshold_binary im (otsu_level cv im) 255)
      else Inl CvError)"

text \<open>Line 174: \<open>resize\<close> asserts a non-empty source; the target size is \<open>(width, height)\<close>.\<close>

definition resize :: "opencv \<Rightarrow> image \<Rightarrow> nat \<times> nat \<Rightarrow> error + image" where
  "resize cv im dsize =
     (if rows im = 0 \<or> cols im = 0 then Inl CvError
      else Inr \<lparr>rows = snd dsize, cols = fst dsize, channels = channels im,
                pix = (\<lambda>r c ch. resize_pix cv im r c)\<rparr>)"

text \<open>Lines 166 to 168: the contours of the binarized corner, largest area first.\<close>

definition rank_contours :: "opencv \<Rightarrow> image \<Rightarrow> contour list" where
  "rank_contours cv thresh = py_sorted_rev (contourArea cv) (fst (findContours cv thresh))"

text \<open>
  Lines 157 to 174: the glyph to store in \<open>rank_img\<close>, or \<open>None\<close> when the corner has
  no contour and the attribute is left alone.
\<close>

definition extract_rank :: "opencv \<Rightarrow> image \<Rightarrow> error + image option" where
  "extract_rank cv warp =
     (let rank_img = corner_crop warp in
      case threshold_otsu cv rank_img of
        Inl e \<Rightarrow> Inl e
      | Inr thresh \<Rightarrow>
          let this_rank_cnts = rank_contours cv thresh in
          if length this_rank_cnts \<noteq> 0
          then (case boundingRect (this_rank_cnts ! 0) of
                  Inl e \<Rightarrow> Inl e
                | Inr (x1, y1, w1, h1) \<Rightarrow>
                    let rank_crop = crop thresh y1 (y1 + h1) x1 (x1 + w1) in
                    case resize cv rank_crop (RANK_WIDTH, RANK_HEIGHT) of
                      Inl e \<Rightarrow> Inl e
                    | Inr g \<Rightarrow> Inr (Some g))
          else Inr None)"

text \<open>
  \<open>process_card\<close> receives a reference to a card object and assigns to its attributes.
  Objects live in a store indexed by reference; the function returns what the call
  returns (the reference, or the exception that left it) and the store as the call
  left it. The \<open>imshow\<close> and \<open>waitKey\<close> calls only display and are left out.
\<close>

type_synonym ref = nat
type_synonym store = "ref \<Rightarrow> card"

definition process_card :: "opencv \<Rightarrow> ref \<Rightarrow> image \<Rightarrow> store \<Rightarrow> (error + ref) \<times> store" where
  "process_card cv this_card im st =
     (case boundingRect (contour (st this_card)) of
        Inl e \<Rightarrow> (Inl e, st)
      | Inr (x, y, w, h) \<Rightarrow>
          let st1 = st(this_card := (st this_card)\<lparr>width := Some w, height := Some h\<rparr>);
              pts = corner_pts (st1 this_card)
          in case card_center pts of
               Inl e \<Rightarrow> (Inl e, st1)
             | Inr cent \<Rightarrow>
                 let st2 = st1(this_card := (st1 this_card)\<lparr>center := cent\<rparr>)
                 in case flattener cv im pts w h of
                      Inl e \<Rightarrow> (Inl e, st2)
                    | Inr warp \<Rightarrow>
                        let st3 = st2(this_card := (st2 this_card)\<lparr>img := Some warp\<rparr>)
                        in case extract_rank cv warp of
                             Inl e \<Rightarrow> (Inl e, st3)
                           | Inr None \<Rightarrow> (Inr this_card, st3)
                           | Inr (Some g) \<Rightarrow>
                               (Inr this_card,
                                st3(this_card := (st3 this_card)\<lparr>rank_img := Some g\<rparr>)))"

section \<open>Template library: \<open>load_ranks\<close>\<close>

definition rank_names :: "string list" where
  "rank_names = [''Ace'', ''Two'', ''Three'', ''Four'', ''Five'', ''Six'', ''Seven'',
     ''Eight'', ''Nine'', ''Ten'', ''Jack'', ''Queen'', ''King'']"

text \<open>\<open>os.path.join\<close> of two components on a POSIX system.\<close>

definition os_path_join :: "string \<Rightarrow> string \<Rightarrow> string" where
  "os_path_join a b =
     (if b \<noteq> [] \<and> hd b = CHR ''/'' then b
      else if a = [] \<or> last a = CHR ''/'' then a @ b
      else a @ ''/'' @ b)"

text \<open>
  \<open>cv2.imread\<close> does not raise on a file that is missing or cannot be decoded: it
  returns \<open>None\<close>. The files on disk are the function \<open>imread\<close> from a path to what
  reading it gives. \<open>load_ranks\<close> contains no test and no \<open>raise\<close>, so its result is a
  plain list.
\<close>

fun load_ranks_loop :: "(string \<Rightarrow> image option) \<Rightarrow> string \<Rightarrow> string list \<Rightarrow> rank list \<Rightarrow> rank list" where
  "load_ranks_loop imread path [] ranks = ranks"
| "load_ranks_loop imread path (name # names) ranks =
     (let img_path = os_path_join path (name @ ''.jpg'');
          new_rank = \<lparr>rank = name, template_img = imread img_path\<rparr>
      in load_ranks_loop imread path names (ranks @ [new_rank]))"

definition load_ranks :: "(string \<Rightarrow> image option) \<Rightarrow> string \<Rightarrow> rank list" where
  "load_ranks imread path = load_ranks_loop imread path rank_names []"

section \<open>A concrete library instance\<close>

text \<open>
  To run the functions on concrete inputs the library record is instantiated: the area
  of a contour is the area of its polygon (the shoelace formula, which is what
  \<open>contourArea\<close> computes), a contour that is already a polygon is its own
  approximation, and the contour tracer returns a given scene.
\<close>

fun cross_sum :: "point \<Rightarrow> contour \<Rightarrow> int" where
  "cross_sum p0 [] = 0"
| "cross_sum p0 [p] = fst p * snd p0 - fst p0 * snd p"
| "cross_sum p0 (p # q # ps) = fst p * snd q - fst q * snd p + cross_sum p0 (q # ps)"

definition polygon_area :: "contour \<Rightarrow> real" where
  "polygon_area c = (case c of [] \<Rightarrow> 0 | p0 # ps \<Rightarrow> \<bar>real_of_int (cross_sum p0 c)\<bar> / 2)"

definition test_cv :: "contour list \<times> hier_row list option \<Rightarrow> opencv" where
  "test_cv scene =
     \<lparr>gray_of = (\<lambda>b g r. (b + g + r) div 3),
      blur_pix = (\<lambda>im r c. pix im r c 0),
      findContours = (\<lambda>im. scene),
      contourArea = polygon_area,
      arcLength = (\<lambda>c. 0),
      approxPolyDP = (\<lambda>c eps. c),
      otsu_level = (\<lambda>im. 127),
      warp_pix = (\<lambda>im rect r c ch. pix im r c ch),
      resize_pix = (\<lambda>im r c. pix im r c 0)\<rparr>"

definition blank_image :: "nat \<Rightarrow> nat \<Rightarrow> nat \<Rightarrow> image" where
  "blank_image r c ch = \<lparr>rows = r, cols = c, channels = ch, pix = (\<lambda>i j k. 0)\<rparr>"

text \<open>The axis-parallel rectangle with opposite corners \<open>(0, 0)\<close> and \<open>(w, h)\<close>.\<close>

definition rect_contour :: "int \<Rightarrow> int \<Rightarrow> contour" where
  "rect_contour w h = [(0, 0), (0, h), (w, h), (w, 0)]"

definition top_level :: hier_row where
  "top_level = (- 1, - 1, - 1, - 1)"

definition no_files :: "string \<Rightarrow> image option" where
  "no_files p = None"

definition fresh_store :: "card \<Rightarrow> store" where
  "fresh_store c r = c"

definition all_files :: "string \<Rightarrow> image option" where
  "all_files p = Some (blank_image 125 70 1)"

text \<open>
  A scene of four top-level rectangles with areas 3500, 4800, 4800 and 6000; two
  rectangles with areas 6000 and 4800; a scene with one small contour inside the corner of a card; four corner points of a card
  standing on a vertex; a card whose outline is a 50 by 70 rectangle, and
  \<open>process_card\<close> run on it.
\<close>

definition demo_scene :: "contour list \<times> hier_row list option" where
  "demo_scene =
     ([rect_contour 70 50, rect_contour 80 60, rect_contour 60 80, rect_contour 100 60],
      Some [top_level, top_level, top_level, top_level])"

definition two_rects :: "contour list" where
  "two_rects = [rect_contour 100 60, rect_contour 80 60]"

definition glyph_scene :: "contour list \<times> hier_row list option" where
  "glyph_scene = ([[(5, 5), (5, 20), (15, 20), (15, 5)]], Some [top_level])"

definition diamond_pts :: "point list" where
  "diamond_pts = [(50, 0), (0, 40), (50, 100), (100, 60)]"

definition demo_card :: card where
  "demo_card = new_card (rect_contour 50 70) (rect_contour 50 70)"

definition demo_run :: "(error + ref) \<times> store" where
  "demo_run =
     process_card (test_cv glyph_scene) 0 (blank_image 480 640 3) (fresh_store demo_card)"

section \<open>Auxiliary lemmas\<close>

subsection \<open>Descending stable sort\<close>

lemma insort_key_keeps_order:
  fixes key :: "'a::linorder \<Rightarrow> 'k::linorder"
  shows "sorted_wrt (\<lambda>a b. key a < key b \<or> (key a = key b \<and> a > b)) ys \<Longrightarrow>
    \<forall>y\<in>set ys. key y = key x \<longrightarrow> x > y \<Longrightarrow>
    sorted_wrt (\<lambda>a b. key a < key b \<or> (key a = key b \<and> a > b)) (insort_key key x ys)"
  by (induction ys) (auto simp: set_insort_key)

lemma sort_key_of_descending:
  fixes key :: "'a::linorder \<Rightarrow> 'k::linorder"
  shows "sorted_wrt (>) zs \<Longrightarrow>
    sorted_wrt (\<lambda>a b. key a < key b \<or> (key a = key b \<and> a > b)) (sort_key key zs)"
proof (induction zs)
  case Nil
  then show ?case by simp
next
  case (Cons z zs)
  then show ?case by (auto intro!: insort_key_keeps_order)
qed

lemma py_sorted_rev_order:
  fixes key :: "'a::linorder \<Rightarrow> 'k::linorder"
  assumes "sorted_wrt (<) xs"
  shows "sorted_wrt (\<lambda>a b. key a > key b \<or> (key a = key b \<and> a < b)) (py_sorted_rev key xs)"
proof -
  have "sorted_wrt (>) (rev xs)" using assms by (simp add: sorted_wrt_rev)
  then have "sorted_wrt (\<lambda>a b. key a < key b \<or> (key a = key b \<and> a > b)) (sort_key key (rev xs))"
    by (rule sort_key_of_descending)
  then show ?thesis
    unfolding py_sorted_rev_def sorted_wrt_rev
    by (rule sorted_wrt_mono_rel[rotated]) auto
qed

lemma set_py_sorted_rev: "set (py_sorted_rev key xs) = set xs"
  by (simp add: py_sorted_rev_def)

lemma distinct_py_sorted_rev: "distinct (py_sorted_rev key xs) = distinct xs"
  by (simp add: py_sorted_rev_def)

lemma py_sorted_rev_hd_max:
  fixes key :: "'a \<Rightarrow> 'k::linorder"
  assumes "xs \<noteq> []"
  shows "py_sorted_rev key xs ! 0 \<in> set xs \<and>
         (\<forall>x\<in>set xs. key x \<le> key (py_sorted_rev key xs ! 0))"
proof -
  have s: "sorted_wrt (\<lambda>a b. key a \<ge> key b) (py_sorted_rev key xs)"
  proof -
    have "sorted (map key (sort_key key (rev xs)))" by (rule sorted_sort_key)
    then have "sorted_wrt (\<lambda>a b. key a \<le> key b) (sort_key key (rev xs))"
      by (simp add: sorted_map)
    then show ?thesis by (simp add: py_sorted_rev_def sorted_wrt_rev)
  qed
  have ne: "py_sorted_rev key xs \<noteq> []"
    using assms set_py_sorted_rev[of key xs] by (metis set_empty)
  then obtain y ys where y: "py_sorted_rev key xs = y # ys"
    by (cases "py_sorted_rev key xs") auto
  have "set xs = insert y (set ys)"
    using set_py_sorted_rev[of key xs] y by simp
  moreover have "\<forall>z\<in>set ys. key z \<le> key y" using s y by simp
  ultimately show ?thesis using y by auto
qed

subsection \<open>The two loops of the shape extractor\<close>

lemma index_sort_props:
  "distinct (index_sort cv cnts) \<and> set (index_sort cv cnts) = {..<length cnts} \<and>
   sorted_wrt (\<lambda>i j. contourArea cv (cnts ! i) > contourArea cv (cnts ! j) \<or>
        (contourArea cv (cnts ! i) = contourArea cv (cnts ! j) \<and> i < j)) (index_sort cv cnts)"
proof -
  have "sorted_wrt (<) [0..<length cnts]" by (simp add: sorted_wrt_upt)
  from py_sorted_rev_order[OF this, of "\<lambda>i. contourArea cv (cnts ! i)"]
  show ?thesis
    by (auto simp: index_sort_def set_py_sorted_rev distinct_py_sorted_rev)
qed

lemma fill_sorted_cases:
  "fill_sorted cnts hier js = None \<or>
   (js = [] \<and> fill_sorted cnts hier js = Some ([], [])) \<or>
   (\<exists>h. hier = Some h \<and> fill_sorted cnts hier js = Some (map ((!) cnts) js, map ((!) h) js))"
  by (induction js) (auto split: option.splits)

lemma fill_sorted_Some:
  "\<forall>i\<in>set js. i < length cnts \<and> i < length h \<Longrightarrow>
   fill_sorted cnts (Some h) js = Some (map ((!) cnts) js, map ((!) h) js)"
  by (induction js) auto

lemma card_loop_filter:
  "card_loop cv (map f js) (map g js) =
   map (\<lambda>i. new_card (f i) (approxPolyDP cv (f i) (POLY_ACC_CONST * arcLength cv (f i))))
     (filter (\<lambda>i. is_card (contourArea cv (f i))
       (approxPolyDP cv (f i) (POLY_ACC_CONST * arcLength cv (f i))) (g i)) js)"
  by (induction js) (auto simp: Let_def)

lemma card_loop_map:
  "map contour (card_loop cv (map f js) (map g js)) =
   map f (filter (\<lambda>i. is_card (contourArea cv (f i))
       (approxPolyDP cv (f i) (POLY_ACC_CONST * arcLength cv (f i))) (g i)) js)"
  by (induction js) (auto simp: Let_def new_card_def)

lemma cards_from_contours_indices:
  "\<exists>js. map contour (cards_from_contours cv cnts hier) = map ((!) cnts) js \<and>
     distinct js \<and> set js \<subseteq> {..<length cnts} \<and>
     sorted_wrt (\<lambda>i j. contourArea cv (cnts ! i) > contourArea cv (cnts ! j) \<or>
        (contourArea cv (cnts ! i) = contourArea cv (cnts ! j) \<and> i < j)) js"
proof -
  let ?is = "index_sort cv cnts"
  consider (exc) "fill_sorted cnts hier ?is = None"
    | (nil) "?is = []" "fill_sorted cnts hier ?is = Some ([], [])"
    | (ok) h where "hier = Some h"
        "fill_sorted cnts hier ?is = Some (map ((!) cnts) ?is, map ((!) h) ?is)"
    using fill_sorted_cases[of cnts hier ?is] by auto
  then show ?thesis
  proof cases
    case exc
    then have "cards_from_contours cv cnts hier = []"
      by (simp add: cards_from_contours_def)
    then show ?thesis by (intro exI[of _ "[]"]) simp
  next
    case nil
    then have "cards_from_contours cv cnts hier = []"
      by (simp add: cards_from_contours_def)
    then show ?thesis by (intro exI[of _ "[]"]) simp
  next
    case ok
    let ?Q = "\<lambda>i. is_card (contourArea cv (cnts ! i))
       (approxPolyDP cv (cnts ! i) (POLY_ACC_CONST * arcLength cv (cnts ! i))) (h ! i)"
    have "map contour (cards_from_contours cv cnts hier) = map ((!) cnts) (filter ?Q ?is)"
      using ok by (simp add: cards_from_contours_def card_loop_map)
    moreover have "distinct (filter ?Q ?is)"
      using index_sort_props[of cv cnts] by simp
    moreover have "set (filter ?Q ?is) \<subseteq> {..<length cnts}"
      using index_sort_props[of cv cnts] by auto
    moreover have "sorted_wrt (\<lambda>i j. contourArea cv (cnts ! i) > contourArea cv (cnts ! j) \<or>
        (contourArea cv (cnts ! i) = contourArea cv (cnts ! j) \<and> i < j)) (filter ?Q ?is)"
      using index_sort_props[of cv cnts] by (simp add: sorted_wrt_filter)
    ultimately show ?thesis by blast
  qed
qed

lemma find_boundaries_test:
  "find_boundaries (test_cv scene) (blank_image 10 10 3) = Inr scene"
  by (simp add: find_boundaries_def cvtColor_BGR2GRAY_def test_cv_def blank_image_def Let_def)

subsection \<open>Extrema and orientation\<close>

lemma argmin_scan_props:
  assumes "length pre = i" "bi < i" "pre ! bi = bv" "\<forall>x\<in>set pre. bv \<le> x"
  shows "argmin_scan xs i bi bv < length (pre @ xs) \<and>
         (\<forall>x\<in>set (pre @ xs). (pre @ xs) ! argmin_scan xs i bi bv \<le> x)"
  using assms
proof (induction xs arbitrary: pre i bi bv)
  case Nil
  then show ?case by simp
next
  case (Cons x xs)
  show ?case
  proof (cases "x < bv")
    case True
    have "argmin_scan xs (Suc i) i x < length ((pre @ [x]) @ xs) \<and>
         (\<forall>y\<in>set ((pre @ [x]) @ xs). ((pre @ [x]) @ xs) ! argmin_scan xs (Suc i) i x \<le> y)"
      using Cons.prems True by (intro Cons.IH) (auto simp: nth_append)
    with True show ?thesis by simp
  next
    case False
    have "argmin_scan xs (Suc i) bi bv < length ((pre @ [x]) @ xs) \<and>
         (\<forall>y\<in>set ((pre @ [x]) @ xs). ((pre @ [x]) @ xs) ! argmin_scan xs (Suc i) bi bv \<le> y)"
      using Cons.prems False by (intro Cons.IH) (auto simp: nth_append)
    with False show ?thesis by simp
  qed
qed

lemma argmax_scan_props:
  assumes "length pre = i" "bi < i" "pre ! bi = bv" "\<forall>x\<in>set pre. x \<le> bv"
  shows "argmax_scan xs i bi bv < length (pre @ xs) \<and>
         (\<forall>x\<in>set (pre @ xs). x \<le> (pre @ xs) ! argmax_scan xs i bi bv)"
  using assms
proof (induction xs arbitrary: pre i bi bv)
  case Nil
  then show ?case by simp
next
  case (Cons x xs)
  show ?case
  proof (cases "x > bv")
    case True
    have "argmax_scan xs (Suc i) i x < length ((pre @ [x]) @ xs) \<and>
         (\<forall>y\<in>set ((pre @ [x]) @ xs). y \<le> ((pre @ [x]) @ xs) ! argmax_scan xs (Suc i) i x)"
      using Cons.prems True by (intro Cons.IH) (auto simp: nth_append)
    with True show ?thesis by simp
  next
    case False
    have "argmax_scan xs (Suc i) bi bv < length ((pre @ [x]) @ xs) \<and>
         (\<forall>y\<in>set ((pre @ [x]) @ xs). y \<le> ((pre @ [x]) @ xs) ! argmax_scan xs (Suc i) bi bv)"
      using Cons.prems False by (intro Cons.IH) (auto simp: nth_append)
    with False show ?thesis by simp
  qed
qed

lemma np_argmin_props:
  assumes "xs \<noteq> []"
  shows "\<exists>i. np_argmin xs = Inr i \<and> i < length xs \<and> (\<forall>x\<in>set xs. xs ! i \<le> x)"
proof -
  obtain x ys where xs: "xs = x # ys" using assms by (cases xs) auto
  from argmin_scan_props[of "[x]" 1 0 x ys] show ?thesis by (simp add: xs)
qed

lemma np_argmax_props:
  assumes "xs \<noteq> []"
  shows "\<exists>i. np_argmax xs = Inr i \<and> i < length xs \<and> (\<forall>x\<in>set xs. x \<le> xs ! i)"
proof -
  obtain x ys where xs: "xs = x # ys" using assms by (cases xs) auto
  from argmax_scan_props[of "[x]" 1 0 x ys] show ?thesis by (simp add: xs)
qed

lemma extrema_props:
  assumes "pts \<noteq> []"
  shows "\<exists>a b c d. extrema pts = Inr (a, b, c, d) \<and>
     a \<in> set pts \<and> (\<forall>p\<in>set pts. pt_sum a \<le> pt_sum p) \<and>
     b \<in> set pts \<and> (\<forall>p\<in>set pts. pt_diff b \<le> pt_diff p) \<and>
     c \<in> set pts \<and> (\<forall>p\<in>set pts. pt_sum p \<le> pt_sum c) \<and>
     d \<in> set pts \<and> (\<forall>p\<in>set pts. pt_diff p \<le> pt_diff d)"
proof -
  from assms have ne: "map pt_sum pts \<noteq> []" "map pt_diff pts \<noteq> []" by simp_all
  obtain i1 where i1: "np_argmin (map pt_sum pts) = Inr i1" "i1 < length pts"
      "\<forall>x\<in>set (map pt_sum pts). map pt_sum pts ! i1 \<le> x"
    using np_argmin_props[OF ne(1)] by auto
  obtain i2 where i2: "np_argmax (map pt_sum pts) = Inr i2" "i2 < length pts"
      "\<forall>x\<in>set (map pt_sum pts). x \<le> map pt_sum pts ! i2"
    using np_argmax_props[OF ne(1)] by auto
  obtain i3 where i3: "np_argmin (map pt_diff pts) = Inr i3" "i3 < length pts"
      "\<forall>x\<in>set (map pt_diff pts). map pt_diff pts ! i3 \<le> x"
    using np_argmin_props[OF ne(2)] by auto
  obtain i4 where i4: "np_argmax (map pt_diff pts) = Inr i4" "i4 < length pts"
      "\<forall>x\<in>set (map pt_diff pts). x \<le> map pt_diff pts ! i4"
    using np_argmax_props[OF ne(2)] by auto
  have "extrema pts = Inr (pts ! i1, pts ! i3, pts ! i2, pts ! i4)"
    by (simp add: extrema_def i1 i2 i3 i4)
  moreover have "pts ! i1 \<in> set pts" "pts ! i2 \<in> set pts" "pts ! i3 \<in> set pts" "pts ! i4 \<in> set pts"
    using i1(2) i2(2) i3(2) i4(2) by simp_all
  moreover have "\<forall>p\<in>set pts. pt_sum (pts ! i1) \<le> pt_sum p" using i1(2,3) by simp
  moreover have "\<forall>p\<in>set pts. pt_sum p \<le> pt_sum (pts ! i2)" using i2(2,3) by simp
  moreover have "\<forall>p\<in>set pts. pt_diff (pts ! i3) \<le> pt_diff p" using i3(2,3) by simp
  moreover have "\<forall>p\<in>set pts. pt_diff p \<le> pt_diff (pts ! i4)" using i4(2,3) by simp
  ultimately show ?thesis by blast
qed

lemma pt_diff_spec_neg: "pt_diff_spec p = - pt_diff p"
  by (simp add: pt_diff_spec_def pt_diff_def)

text \<open>
  With a positive height the three tests of the code exclude one another and agree
  with the classification. (With \<open>h \<le> 0\<close> the first two tests can hold together, and
  the second assignment then overwrites the first.)
\<close>

lemma orientation_exclusive:
  assumes "0 < h"
  shows "(orientation_spec w h = Vertical \<longleftrightarrow> is_vertical w h) \<and>
         (orientation_spec w h = Horizontal \<longleftrightarrow> is_horizontal w h) \<and>
         (orientation_spec w h = Diamond \<longleftrightarrow> is_diamond w h) \<and>
         \<not> (is_vertical w h \<and> is_horizontal w h) \<and>
         \<not> (is_vertical w h \<and> is_diamond w h) \<and>
         \<not> (is_horizontal w h \<and> is_diamond w h)"
  using assms
  by (auto simp: orientation_spec_def is_vertical_def is_horizontal_def is_diamond_def)

lemma fold_min_le: "fold min xs (a::int) \<le> a"
proof (induction xs arbitrary: a)
  case Nil
  then show ?case by simp
next
  case (Cons x xs)
  have "fold min xs (min x a) \<le> min x a" by (rule Cons.IH)
  then show ?case by simp
qed

lemma fold_max_ge: "a \<le> fold max xs (a::int)"
proof (induction xs arbitrary: a)
  case Nil
  then show ?case by simp
next
  case (Cons x xs)
  have "max x a \<le> fold max xs (max x a)" by (rule Cons.IH)
  then show ?case by simp
qed

text \<open>The width and height of a bounding rectangle are at least one pixel.\<close>

lemma boundingRect_positive:
  assumes "boundingRect c = Inr (x, y, w, h)"
  shows "0 < w \<and> 0 < h"
proof (cases c)
  case Nil
  with assms show ?thesis by (simp add: boundingRect_def)
next
  case (Cons p ps)
  have "fold min (map fst ps) (fst p) \<le> fold max (map fst ps) (fst p)"
    using fold_min_le[of "map fst ps" "fst p"] fold_max_ge[of "fst p" "map fst ps"] by linarith
  moreover have "fold min (map snd ps) (snd p) \<le> fold max (map snd ps) (snd p)"
    using fold_min_le[of "map snd ps" "snd p"] fold_max_ge[of "snd p" "map snd ps"] by linarith
  ultimately show ?thesis
    using assms Cons by (auto simp: boundingRect_def Let_def)
qed

lemma order_points_total:
  assumes "length pts = 4"
  shows "\<exists>r. order_points pts w h = Inr r \<and> length r = 4"
proof -
  from assms(1) have "pts \<noteq> []" by auto
  from extrema_props[OF this] obtain a b c d where
    ex: "extrema pts = Inr (a, b, c, d)" by blast
  show ?thesis using ex assms by (auto simp: order_points_def Let_def)
qed

subsection \<open>Corner crop, template loop, the steps of \<open>process_card\<close>\<close>

lemma corner_crop_size:
  assumes "rows warp = 300" "cols warp = 200"
  shows "rows (corner_crop warp) = 70 \<and> cols (corner_crop warp) = 45 \<and>
         channels (corner_crop warp) = channels warp"
  using assms
  by (simp add: corner_crop_def crop_def slice_bound_def CORNER_HEIGHT_def CORNER_WIDTH_def)

lemma load_ranks_loop_eq:
  "load_ranks_loop imread path names ranks =
     ranks @ map (\<lambda>name. \<lparr>rank = name,
        template_img = imread (os_path_join path (name @ ''.jpg''))\<rparr>) names"
  by (induction names arbitrary: ranks) (simp_all add: Let_def)

lemma process_card_cases:
  "(\<exists>e. boundingRect (contour (st a)) = Inl e \<and> process_card cv a im st = (Inl e, st)) \<or>
   (\<exists>x y w h. boundingRect (contour (st a)) = Inr (x, y, w, h) \<and>
      ((\<exists>e. card_center (corner_pts (st a)) = Inl e \<and>
            process_card cv a im st = (Inl e, st(a := (st a)\<lparr>width := Some w, height := Some h\<rparr>))) \<or>
       (\<exists>cent. card_center (corner_pts (st a)) = Inr cent \<and>
          ((\<exists>e. flattener cv im (corner_pts (st a)) w h = Inl e \<and>
              process_card cv a im st =
                (Inl e, st(a := (st a)\<lparr>width := Some w, height := Some h, center := cent\<rparr>))) \<or>
           (\<exists>warp. flattener cv im (corner_pts (st a)) w h = Inr warp \<and>
              ((\<exists>e. extract_rank cv warp = Inl e \<and>
                  process_card cv a im st =
                   (Inl e, st(a := (st a)\<lparr>width := Some w, height := Some h, center := cent,
                        img := Some warp\<rparr>))) \<or>
               (extract_rank cv warp = Inr None \<and>
                  process_card cv a im st =
                   (Inr a, st(a := (st a)\<lparr>width := Some w, height := Some h, center := cent,
                        img := Some warp\<rparr>))) \<or>
               (\<exists>g. extract_rank cv warp = Inr (Some g) \<and>
                  process_card cv a im st =
                   (Inr a, st(a := (st a)\<lparr>width := Some w, height := Some h, center := cent,
                        img := Some warp, rank_img := Some g\<rparr>)))))))))"
  by (auto simp: process_card_def Let_def split: sum.splits option.splits prod.splits)

lemmas run_defs = rect_contour_def extrema_def pt_sum_def pt_diff_def order_points_def
  orientation_spec_def is_vertical_def is_horizontal_def is_diamond_def Let_def

lemmas card_run_defs = demo_run_def process_card_def fresh_store_def demo_card_def new_card_def
  card_init_def boundingRect_def card_center_def trunc_div_def flattener_def
  warpPerspective_def cvtColor_BGR2GRAY_def run_defs
  extract_rank_def corner_crop_def crop_def slice_bound_def threshold_otsu_def
  threshold_binary_def rank_contours_def py_sorted_rev_def test_cv_def glyph_scene_def
  blank_image_def resize_def CORNER_HEIGHT_def CORNER_WIDTH_def
  RANK_WIDTH_def RANK_HEIGHT_def

lemma demo_run_ok: "fst demo_run = Inr 0"
  by (simp add: card_run_defs)

lemma demo_run_fields:
  "width (snd demo_run 0) = Some 51 \<and> height (snd demo_run 0) = Some 71 \<and>
   center (snd demo_run 0) = [25, 35] \<and>
   map_option rows (img (snd demo_run 0)) = Some 300 \<and>
   map_option cols (rank_img (snd demo_run 0)) = Some 70"
  by (simp add: card_run_defs)

section \<open>Rank classifier\<close>

text \<open>
  C1. \<open>get_card_rank\<close> raises \<open>NameError\<close> on its first name for every argument: it
  computes no score, consults no threshold and returns neither a template name nor the
  sentinel.
\<close>

theorem get_card_rank_raises:
  "get_card_rank card_img = Inl (NameError ''rank_image'')"
  by (simp add: get_card_rank_def load_name_def module_globals_def)

section \<open>Perspective normalizer\<close>

text \<open>
  C2, as stated, fails. The design document takes \<open>diff = x - y\<close>. For the upright card
  with corners \<open>(0, 0)\<close>, \<open>(0, 70)\<close>, \<open>(50, 70)\<close>, \<open>(50, 0)\<close> and a bounding rectangle of
  51 by 71 the case is vertical, and the second ordered corner (top-right) is \<open>(50, 0)\<close>;
  that point has the greatest \<open>x - y\<close>, not the least, which the point \<open>(0, 70)\<close> has.
\<close>

theorem corner_order_min_diff_counterexample:
  "length (rect_contour 50 70) = 4 \<and>
   boundingRect (rect_contour 50 70) = Inr (0, 0, 51, 71) \<and>
   orientation_spec 51 71 = Vertical \<and>
   order_points (rect_contour 50 70) 51 71 = Inr [(0, 0), (50, 0), (50, 70), (0, 70)] \<and>
   (0, 70) \<in> set (rect_contour 50 70) \<and>
   pt_diff_spec (0, 70) = - 70 \<and> pt_diff_spec (50, 0) = 50 \<and>
   \<not> pt_diff_spec (50, 0) \<le> pt_diff_spec (0, 70)"
  by (simp add: boundingRect_def run_defs pt_diff_spec_def)

text \<open>
  C2, amended. For four corner points and the width \<open>w\<close> and height \<open>h\<close> of a bounding
  rectangle, the four extrema exist: a point of least sum \<open>x + y\<close>, a point of greatest
  \<open>x - y\<close>, a point of greatest sum and a point of least \<open>x - y\<close>. (The code takes the
  difference as \<open>y - x\<close>, as \<open>np.diff\<close> computes it, and its least and greatest; these are
  the greatest and least \<open>x - y\<close>.) Exactly one of the three tests of the code holds, the
  one the classification names: vertical when \<open>w \<le> 0.8 h\<close>, horizontal when
  \<open>w \<ge> 1.2 h\<close>, diamond otherwise. In the vertical case the ordered corners (top-left,
  top-right, bottom-right, bottom-left) are the extrema in the order least sum, greatest
  \<open>x - y\<close>, greatest sum, least \<open>x - y\<close>; in the horizontal case they are the same
  extrema moved on by one position, the point of least \<open>x - y\<close> (bottom-left) first.
\<close>

theorem corner_order_by_aspect:
  assumes "length pts = 4" and "boundingRect c = Inr (x, y, w, h)"
  shows "\<exists>p_tl p_tr p_br p_bl. extrema pts = Inr (p_tl, p_tr, p_br, p_bl) \<and>
     p_tl \<in> set pts \<and> (\<forall>p\<in>set pts. pt_sum p_tl \<le> pt_sum p) \<and>
     p_tr \<in> set pts \<and> (\<forall>p\<in>set pts. pt_diff p_tr \<le> pt_diff p) \<and>
     (\<forall>p\<in>set pts. pt_diff_spec p \<le> pt_diff_spec p_tr) \<and>
     p_br \<in> set pts \<and> (\<forall>p\<in>set pts. pt_sum p \<le> pt_sum p_br) \<and>
     p_bl \<in> set pts \<and> (\<forall>p\<in>set pts. pt_diff p \<le> pt_diff p_bl) \<and>
     (\<forall>p\<in>set pts. pt_diff_spec p_bl \<le> pt_diff_spec p) \<and>
     (case orientation_spec w h of
        Vertical \<Rightarrow> is_vertical w h \<and> \<not> is_horizontal w h \<and> \<not> is_diamond w h \<and>
                    order_points pts w h = Inr [p_tl, p_tr, p_br, p_bl]
      | Horizontal \<Rightarrow> is_horizontal w h \<and> \<not> is_vertical w h \<and> \<not> is_diamond w h \<and>
                    order_points pts w h = Inr [p_bl, p_tl, p_tr, p_br]
      | Diamond \<Rightarrow> is_diamond w h \<and> \<not> is_vertical w h \<and> \<not> is_horizontal w h)"
proof -
  from assms(1) have "pts \<noteq> []" by auto
  from extrema_props[OF this] obtain a b c d where
    ex: "extrema pts = Inr (a, b, c, d)" and
    props: "a \<in> set pts" "\<forall>p\<in>set pts. pt_sum a \<le> pt_sum p"
      "b \<in> set pts" "\<forall>p\<in>set pts. pt_diff b \<le> pt_diff p"
      "c \<in> set pts" "\<forall>p\<in>set pts. pt_sum p \<le> pt_sum c"
      "d \<in> set pts" "\<forall>p\<in>set pts. pt_diff p \<le> pt_diff d"
    by blast
  have sp: "\<forall>p\<in>set pts. pt_diff_spec p \<le> pt_diff_spec b"
      "\<forall>p\<in>set pts. pt_diff_spec d \<le> pt_diff_spec p"
    using props(4,8) by (simp_all add: pt_diff_spec_neg)
  have hpos: "0 < h" using boundingRect_positive[OF assms(2)] by simp
  have "case orientation_spec w h of
        Vertical \<Rightarrow> is_vertical w h \<and> \<not> is_horizontal w h \<and> \<not> is_diamond w h \<and>
                    order_points pts w h = Inr [a, b, c, d]
      | Horizontal \<Rightarrow> is_horizontal w h \<and> \<not> is_vertical w h \<and> \<not> is_diamond w h \<and>
                    order_points pts w h = Inr [d, a, b, c]
      | Diamond \<Rightarrow> is_diamond w h \<and> \<not> is_vertical w h \<and> \<not> is_horizontal w h"
    using orientation_exclusive[OF hpos, of w] ex
    by (cases "orientation_spec w h") (auto simp: order_points_def Let_def)
  with ex props sp show ?thesis by blast
qed

theorem corner_order_by_aspect_witness:
  "length (rect_contour 70 50) = 4 \<and>
   boundingRect (rect_contour 70 50) = Inr (0, 0, 71, 51) \<and>
   orientation_spec 71 51 = Horizontal \<and>
   order_points (rect_contour 70 50) 71 51 = Inr [(0, 50), (0, 0), (70, 0), (70, 50)] \<and>
   (\<exists>p_tl p_tr p_br p_bl. extrema (rect_contour 70 50) = Inr (p_tl, p_tr, p_br, p_bl) \<and>
     p_tl \<in> set (rect_contour 70 50) \<and>
     (\<forall>p\<in>set (rect_contour 70 50). pt_sum p_tl \<le> pt_sum p) \<and>
     p_tr \<in> set (rect_contour 70 50) \<and>
     (\<forall>p\<in>set (rect_contour 70 50). pt_diff p_tr \<le> pt_diff p) \<and>
     (\<forall>p\<in>set (rect_contour 70 50). pt_diff_spec p \<le> pt_diff_spec p_tr) \<and>
     p_br \<in> set (rect_contour 70 50) \<and>
     (\<forall>p\<in>set (rect_contour 70 50). pt_sum p \<le> pt_sum p_br) \<and>
     p_bl \<in> set (rect_contour 70 50) \<and>
     (\<forall>p\<in>set (rect_contour 70 50). pt_diff p \<le> pt_diff p_bl) \<and>
     (\<forall>p\<in>set (rect_contour 70 50). pt_diff_spec p_bl \<le> pt_diff_spec p) \<and>
     (case orientation_spec 71 51 of
        Vertical \<Rightarrow> is_vertical 71 51 \<and> \<not> is_horizontal 71 51 \<and> \<not> is_diamond 71 51 \<and>
                    order_points (rect_contour 70 50) 71 51 = Inr [p_tl, p_tr, p_br, p_bl]
      | Horizontal \<Rightarrow> is_horizontal 71 51 \<and> \<not> is_vertical 71 51 \<and> \<not> is_diamond 71 51 \<and>
                    order_points (rect_contour 70 50) 71 51 = Inr [p_bl, p_tl, p_tr, p_br]
      | Diamond \<Rightarrow> is_diamond 71 51 \<and> \<not> is_vertical 71 51 \<and> \<not> is_horizontal 71 51))"
proof -
  have h1: "length (rect_contour 70 50) = 4" by (simp add: rect_contour_def)
  have h2: "boundingRect (rect_contour 70 50) = Inr (0, 0, 71, 51)"
    by (simp add: boundingRect_def rect_contour_def)
  have e1: "orientation_spec 71 51 = Horizontal" by (simp add: orientation_spec_def)
  have e2: "order_points (rect_contour 70 50) 71 51 = Inr [(0, 50), (0, 0), (70, 0), (70, 50)]"
    by (simp add: run_defs)
  show ?thesis
    using h1 h2 e1 e2 corner_order_by_aspect[OF h1 h2] by blast
qed

text \<open>
  C3. In the diamond branch, \<open>0.8 h < w < 1.2 h\<close>, the corners are ordered by vertex
  index alone: the vertices 1, 0, 3, 2 when the \<open>y\<close> coordinate of vertex 1 is at most
  that of vertex 3, and the vertices 0, 3, 2, 1 when it is greater.
\<close>

theorem diamond_vertex_order:
  assumes "length pts = 4"
    and "0.8 * real_of_int h < real_of_int w" and "real_of_int w < 1.2 * real_of_int h"
  shows "order_points pts w h =
     Inr (if snd (pts ! 1) \<le> snd (pts ! 3)
          then [pts ! 1, pts ! 0, pts ! 3, pts ! 2]
          else [pts ! 0, pts ! 3, pts ! 2, pts ! 1])"
proof -
  from assms(1) have "pts \<noteq> []" by auto
  from extrema_props[OF this] obtain a b c d where
    ex: "extrema pts = Inr (a, b, c, d)" by blast
  have d: "is_diamond w h" using assms(2,3) by (simp add: is_diamond_def)
  show ?thesis using ex d assms(1) by (simp add: order_points_def Let_def)
qed

theorem diamond_vertex_order_witness:
  "length diamond_pts = 4 \<and>
   0.8 * real_of_int 101 < real_of_int 101 \<and> real_of_int 101 < 1.2 * real_of_int 101 \<and>
   snd (diamond_pts ! 1) \<le> snd (diamond_pts ! 3) \<and>
   order_points diamond_pts 101 101 = Inr [(0, 40), (50, 0), (100, 60), (50, 100)]"
proof -
  have h1: "length diamond_pts = 4" by (simp add: diamond_pts_def)
  have h2: "0.8 * real_of_int 101 < real_of_int 101" by simp
  have h3: "real_of_int 101 < 1.2 * real_of_int 101" by simp
  have e: "snd (diamond_pts ! 1) \<le> snd (diamond_pts ! 3)" by (simp add: diamond_pts_def)
  show ?thesis
    using h1 h2 h3 e diamond_vertex_order[OF h1 h2 h3] by (simp add: diamond_pts_def)
qed

text \<open>
  C4. For every non-empty colour image (3 or 4 channels), every four corner points and
  every width and height, \<open>flattener\<close> returns an image, and that image is 200 pixels
  wide, 300 pixels tall and has a single channel.
\<close>

theorem flattener_output_size:
  assumes "length pts = 4" and "0 < rows im" and "0 < cols im"
    and "channels im = 3 \<or> channels im = 4"
  shows "\<exists>warp. flattener cv im pts w h = Inr warp \<and>
           cols warp = 200 \<and> rows warp = 300 \<and> channels warp = 1"
proof -
  obtain r where r: "order_points pts w h = Inr r"
    using order_points_total[OF assms(1)] by blast
  show ?thesis
    using assms(2-4) r
    by (auto simp: flattener_def warpPerspective_def cvtColor_BGR2GRAY_def Let_def)
qed

theorem flattener_output_size_witness:
  "length (rect_contour 50 70) = 4 \<and> 0 < rows (blank_image 480 640 3) \<and>
   0 < cols (blank_image 480 640 3) \<and>
   (channels (blank_image 480 640 3) = 3 \<or> channels (blank_image 480 640 3) = 4) \<and>
   (\<exists>warp. flattener (test_cv ([], None)) (blank_image 480 640 3) (rect_contour 50 70) 51 71
              = Inr warp \<and>
           cols warp = 200 \<and> rows warp = 300 \<and> channels warp = 1)"
proof -
  have h1: "length (rect_contour 50 70) = 4" by (simp add: rect_contour_def)
  have h2: "0 < rows (blank_image 480 640 3)" by (simp add: blank_image_def)
  have h3: "0 < cols (blank_image 480 640 3)" by (simp add: blank_image_def)
  have h4: "channels (blank_image 480 640 3) = 3 \<or> channels (blank_image 480 640 3) = 4"
    by (simp add: blank_image_def)
  show ?thesis
    using h1 h2 h3 h4 flattener_output_size[OF h1 h2 h3 h4] by blast
qed

section \<open>Shape extractor\<close>

text \<open>
  C5, as stated, fails: a top-level rectangle of area exactly 3500 with four vertices is
  not accepted, and neither is one of area exactly 6000.
\<close>

theorem area_filter_inclusive_counterexample:
  "contourArea (test_cv ([], None)) (rect_contour 70 50) = CARD_MIN_AREA \<and>
   length (approxPolyDP (test_cv ([], None)) (rect_contour 70 50)
       (POLY_ACC_CONST * arcLength (test_cv ([], None)) (rect_contour 70 50))) = 4 \<and>
   parent top_level = - 1 \<and>
   cards_from_contours (test_cv ([], None)) [rect_contour 70 50] (Some [top_level]) = [] \<and>
   contourArea (test_cv ([], None)) (rect_contour 100 60) = CARD_MAX_AREA \<and>
   length (approxPolyDP (test_cv ([], None)) (rect_contour 100 60)
       (POLY_ACC_CONST * arcLength (test_cv ([], None)) (rect_contour 100 60))) = 4 \<and>
   cards_from_contours (test_cv ([], None)) [rect_contour 100 60] (Some [top_level]) = []"
  by (simp add: cards_from_contours_def index_sort_def py_sorted_rev_def is_card_def
      CARD_MAX_AREA_def CARD_MIN_AREA_def Let_def test_cv_def rect_contour_def
      polygon_area_def top_level_def)

text \<open>
  C5, amended. The area filter is exclusive at both ends. For every scene of curves
  with its hierarchy, every curve is examined, and the candidates returned are, in the
  sorted order, exactly the curves whose area is greater than 3500 and less than 6000,
  whose approximated polygon has exactly 4 vertices and which have no parent. A curve
  of area exactly 3500 or exactly 6000 is rejected, like every area outside, and
  rejecting one curve does not stop the curves after it from being examined.
\<close>

theorem area_filter_exclusive:
  assumes "length h = length cnts"
  shows "set (index_sort cv cnts) = {..<length cnts} \<and>
     cards_from_contours cv cnts (Some h) =
       map (\<lambda>i. new_card (cnts ! i)
                 (approxPolyDP cv (cnts ! i) (POLY_ACC_CONST * arcLength cv (cnts ! i))))
         (filter (\<lambda>i. 3500 < contourArea cv (cnts ! i) \<and> contourArea cv (cnts ! i) < 6000 \<and>
                       length (approxPolyDP cv (cnts ! i)
                                 (POLY_ACC_CONST * arcLength cv (cnts ! i))) = 4 \<and>
                       parent (h ! i) = - 1)
            (index_sort cv cnts))"
proof -
  have s: "set (index_sort cv cnts) = {..<length cnts}"
    using index_sort_props[of cv cnts] by simp
  then have "\<forall>i\<in>set (index_sort cv cnts). i < length cnts \<and> i < length h"
    using assms by simp
  then have f: "fill_sorted cnts (Some h) (index_sort cv cnts) =
      Some (map ((!) cnts) (index_sort cv cnts), map ((!) h) (index_sort cv cnts))"
    by (rule fill_sorted_Some)
  have q: "\<And>i. is_card (contourArea cv (cnts ! i))
        (approxPolyDP cv (cnts ! i) (POLY_ACC_CONST * arcLength cv (cnts ! i))) (h ! i) \<longleftrightarrow>
      (3500 < contourArea cv (cnts ! i) \<and> contourArea cv (cnts ! i) < 6000 \<and>
       length (approxPolyDP cv (cnts ! i) (POLY_ACC_CONST * arcLength cv (cnts ! i))) = 4 \<and>
       parent (h ! i) = - 1)"
    by (auto simp: is_card_def CARD_MAX_AREA_def CARD_MIN_AREA_def)
  show ?thesis
    using s by (simp add: cards_from_contours_def f card_loop_filter q)
qed

theorem area_filter_exclusive_witness:
  "length [top_level, top_level] = length two_rects \<and>
   contourArea (test_cv ([], None)) (two_rects ! 0) = 6000 \<and>
   contourArea (test_cv ([], None)) (two_rects ! 1) = 4800 \<and>
   cards_from_contours (test_cv ([], None)) two_rects (Some [top_level, top_level]) =
     [new_card (rect_contour 80 60) (rect_contour 80 60)]"
proof -
  have h: "length [top_level, top_level] = length two_rects"
    by (simp add: two_rects_def)
  have a: "contourArea (test_cv ([], None)) (two_rects ! 0) = 6000"
    "contourArea (test_cv ([], None)) (two_rects ! 1) = 4800"
    by (simp_all add: two_rects_def test_cv_def rect_contour_def polygon_area_def)
  have e: "cards_from_contours (test_cv ([], None)) two_rects (Some [top_level, top_level]) =
     [new_card (rect_contour 80 60) (rect_contour 80 60)]"
    by (simp add: cards_from_contours_def index_sort_def py_sorted_rev_def two_rects_def
        test_cv_def polygon_area_def rect_contour_def is_card_def top_level_def
        CARD_MAX_AREA_def CARD_MIN_AREA_def Let_def upt_rec)
  show ?thesis
    using h a e area_filter_exclusive[OF h, of "test_cv ([], None)"]
    by simp
qed

text \<open>
  C7. When the contour tracer returns the curves \<open>cnts\<close>, the shape extractor returns
  candidates whose contours are \<open>cnts\<close> at distinct positions \<open>js\<close>, and along \<open>js\<close> the
  area never increases; of two candidates with equal area the one detected first (the
  smaller position in \<open>cnts\<close>) comes first.
\<close>

theorem candidates_sorted_stable:
  assumes "find_boundaries cv im = Inr (cnts, hier)"
  shows "\<exists>cards js. get_card_contours cv im = Inr cards \<and>
     map contour cards = map ((!) cnts) js \<and>
     distinct js \<and> set js \<subseteq> {..<length cnts} \<and>
     sorted_wrt (\<lambda>i j. contourArea cv (cnts ! i) > contourArea cv (cnts ! j) \<or>
        (contourArea cv (cnts ! i) = contourArea cv (cnts ! j) \<and> i < j)) js"
  using assms cards_from_contours_indices[of cv cnts hier]
  by (simp add: get_card_contours_def)

theorem candidates_sorted_stable_witness:
  "find_boundaries (test_cv demo_scene) (blank_image 10 10 3) =
     Inr (fst demo_scene, snd demo_scene) \<and>
   map contour (cards_from_contours (test_cv demo_scene) (fst demo_scene) (snd demo_scene))
     = [rect_contour 80 60, rect_contour 60 80] \<and>
   (\<exists>cards js. get_card_contours (test_cv demo_scene) (blank_image 10 10 3) = Inr cards \<and>
     map contour cards = map ((!) (fst demo_scene)) js \<and>
     distinct js \<and> set js \<subseteq> {..<length (fst demo_scene)} \<and>
     sorted_wrt (\<lambda>i j. contourArea (test_cv demo_scene) (fst demo_scene ! i) >
                        contourArea (test_cv demo_scene) (fst demo_scene ! j) \<or>
        (contourArea (test_cv demo_scene) (fst demo_scene ! i) =
         contourArea (test_cv demo_scene) (fst demo_scene ! j) \<and> i < j)) js)"
proof -
  have h: "find_boundaries (test_cv demo_scene) (blank_image 10 10 3) =
     Inr (fst demo_scene, snd demo_scene)"
    by (simp add: find_boundaries_test)
  have e: "map contour (cards_from_contours (test_cv demo_scene) (fst demo_scene) (snd demo_scene))
    = [rect_contour 80 60, rect_contour 60 80]"
    by (simp add: cards_from_contours_def index_sort_def py_sorted_rev_def demo_scene_def
      test_cv_def polygon_area_def rect_contour_def is_card_def top_level_def new_card_def
      CARD_MAX_AREA_def CARD_MIN_AREA_def Let_def upt_rec)
  show ?thesis using h e candidates_sorted_stable[OF h] by blast
qed

text \<open>
  C8. When the contour tracer finds no curve in the image, the shape extractor returns
  the empty list of candidates, and it returns: no exception leaves it.
\<close>

theorem no_contours_no_cards:
  assumes "find_boundaries cv im = Inr ([], hier)"
  shows "get_card_contours cv im = Inr []"
  using assms
  by (simp add: get_card_contours_def cards_from_contours_def index_sort_def py_sorted_rev_def)

theorem no_contours_no_cards_witness:
  "find_boundaries (test_cv ([], None)) (blank_image 10 10 3) = Inr ([], None) \<and>
   get_card_contours (test_cv ([], None)) (blank_image 10 10 3) = Inr []"
proof -
  have h: "find_boundaries (test_cv ([], None)) (blank_image 10 10 3) = Inr ([], None)"
    by (simp add: find_boundaries_test)
  show ?thesis using h no_contours_no_cards[OF h] by simp
qed

section \<open>Rank region extractor\<close>

text \<open>
  C6, as stated, fails: the corner cropped from a 200 by 300 card image is 45 pixels
  wide, not 70.
\<close>

theorem corner_crop_width_counterexample:
  "rows (blank_image 300 200 1) = 300 \<and> cols (blank_image 300 200 1) = 200 \<and>
   rows (corner_crop (blank_image 300 200 1)) = 70 \<and>
   cols (corner_crop (blank_image 300 200 1)) = 45 \<and>
   cols (corner_crop (blank_image 300 200 1)) \<noteq> 70"
  by (simp add: corner_crop_def crop_def slice_bound_def CORNER_HEIGHT_def CORNER_WIDTH_def
      blank_image_def)

text \<open>
  C6, amended. From the 200 by 300 single-channel card image the rank region extractor
  crops the top-left region 45 pixels wide and 70 pixels tall, binarizes it at the level
  Otsu's method chooses (a pixel above the level becomes 255, any other 0), and looks at
  the contours of the binarized crop. With no contour no glyph is produced. Otherwise it
  takes a contour of greatest area, crops the binarized image to that contour's bounding
  rectangle and resizes the crop; the glyph it then produces is exactly 70 pixels wide
  and 125 pixels tall.
\<close>

theorem rank_region_extractor:
  assumes "rows warp = 300" and "cols warp = 200" and "channels warp = 1"
  shows "\<exists>thresh.
     rows (corner_crop warp) = 70 \<and> cols (corner_crop warp) = 45 \<and>
     threshold_otsu cv (corner_crop warp) = Inr thresh \<and>
     rows thresh = 70 \<and> cols thresh = 45 \<and>
     (\<forall>r c ch. pix thresh r c ch =
        (if pix (corner_crop warp) r c ch > otsu_level cv (corner_crop warp) then 255 else 0)) \<and>
     (if fst (findContours cv thresh) = [] then extract_rank cv warp = Inr None
      else \<exists>c0 \<in> set (fst (findContours cv thresh)).
             (\<forall>c \<in> set (fst (findContours cv thresh)). contourArea cv c \<le> contourArea cv c0) \<and>
             (case boundingRect c0 of
                Inl e \<Rightarrow> extract_rank cv warp = Inl e
              | Inr (x1, y1, w1, h1) \<Rightarrow>
                  (case resize cv (crop thresh y1 (y1 + h1) x1 (x1 + w1)) (RANK_WIDTH, RANK_HEIGHT) of
                     Inl e \<Rightarrow> extract_rank cv warp = Inl e
                   | Inr g \<Rightarrow> extract_rank cv warp = Inr (Some g) \<and>
                              cols g = 70 \<and> rows g = 125)))"
proof -
  let ?crop = "corner_crop warp"
  let ?thresh = "threshold_binary ?crop (otsu_level cv ?crop) 255"
  let ?cnts = "fst (findContours cv ?thresh)"
  have sz: "rows ?crop = 70" "cols ?crop = 45" "channels ?crop = 1"
    using corner_crop_size[OF assms(1,2)] assms(3) by simp_all
  have th: "threshold_otsu cv ?crop = Inr ?thresh"
    using sz by (simp add: threshold_otsu_def)
  have tsz: "rows ?thresh = 70" "cols ?thresh = 45"
    using sz by (simp_all add: threshold_binary_def)
  have tpix: "\<forall>r c ch. pix ?thresh r c ch =
        (if pix ?crop r c ch > otsu_level cv ?crop then 255 else 0)"
    by (simp add: threshold_binary_def)
  have sel: "if ?cnts = [] then extract_rank cv warp = Inr None
      else \<exists>c0 \<in> set ?cnts.
             (\<forall>c \<in> set ?cnts. contourArea cv c \<le> contourArea cv c0) \<and>
             (case boundingRect c0 of
                Inl e \<Rightarrow> extract_rank cv warp = Inl e
              | Inr (x1, y1, w1, h1) \<Rightarrow>
                  (case resize cv (crop ?thresh y1 (y1 + h1) x1 (x1 + w1)) (RANK_WIDTH, RANK_HEIGHT) of
                     Inl e \<Rightarrow> extract_rank cv warp = Inl e
                   | Inr g \<Rightarrow> extract_rank cv warp = Inr (Some g) \<and>
                              cols g = 70 \<and> rows g = 125))"
  proof (cases "?cnts = []")
    case True
    then show ?thesis
      by (simp add: extract_rank_def th rank_contours_def py_sorted_rev_def Let_def)
  next
    case False
    let ?c0 = "rank_contours cv ?thresh ! 0"
    have mx: "?c0 \<in> set ?cnts" "\<forall>c\<in>set ?cnts. contourArea cv c \<le> contourArea cv ?c0"
      using py_sorted_rev_hd_max[OF False, of "contourArea cv"]
      by (simp_all add: rank_contours_def)
    have ne: "rank_contours cv ?thresh \<noteq> []"
      using False set_py_sorted_rev[of "contourArea cv" ?cnts]
      by (metis rank_contours_def set_empty)
    have "case boundingRect ?c0 of
                Inl e \<Rightarrow> extract_rank cv warp = Inl e
              | Inr (x1, y1, w1, h1) \<Rightarrow>
                  (case resize cv (crop ?thresh y1 (y1 + h1) x1 (x1 + w1)) (RANK_WIDTH, RANK_HEIGHT) of
                     Inl e \<Rightarrow> extract_rank cv warp = Inl e
                   | Inr g \<Rightarrow> extract_rank cv warp = Inr (Some g) \<and>
                              cols g = 70 \<and> rows g = 125)"
      using ne
      by (auto simp: extract_rank_def th Let_def resize_def RANK_WIDTH_def RANK_HEIGHT_def
          split: sum.splits prod.splits)
    with mx False show ?thesis by auto
  qed
  show ?thesis
    using sz(1,2) th tsz tpix sel by blast
qed

theorem rank_region_extractor_witness:
  "rows (blank_image 300 200 1) = 300 \<and> cols (blank_image 300 200 1) = 200 \<and>
   channels (blank_image 300 200 1) = 1 \<and>
   rows (corner_crop (blank_image 300 200 1)) = 70 \<and>
   cols (corner_crop (blank_image 300 200 1)) = 45 \<and>
   fst (findContours (test_cv glyph_scene) (blank_image 70 45 1)) \<noteq> [] \<and>
   (\<exists>g. extract_rank (test_cv glyph_scene) (blank_image 300 200 1) = Inr (Some g) \<and>
        cols g = 70 \<and> rows g = 125)"
proof -
  have h1: "rows (blank_image 300 200 1) = 300" by (simp add: blank_image_def)
  have h2: "cols (blank_image 300 200 1) = 200" by (simp add: blank_image_def)
  have h3: "channels (blank_image 300 200 1) = 1" by (simp add: blank_image_def)
  have e: "fst (findContours (test_cv glyph_scene) (blank_image 70 45 1)) \<noteq> []"
    by (simp add: test_cv_def glyph_scene_def)
  have r: "\<exists>g. extract_rank (test_cv glyph_scene) (blank_image 300 200 1) = Inr (Some g) \<and>
        cols g = 70 \<and> rows g = 125"
    by (simp add: extract_rank_def corner_crop_def crop_def slice_bound_def threshold_otsu_def
      threshold_binary_def rank_contours_def py_sorted_rev_def test_cv_def glyph_scene_def
      blank_image_def boundingRect_def resize_def Let_def CORNER_HEIGHT_def CORNER_WIDTH_def
      RANK_WIDTH_def RANK_HEIGHT_def)
  show ?thesis
    using h1 h2 h3 e r rank_region_extractor[OF h1 h2 h3, of "test_cv glyph_scene"]
    by blast
qed

text \<open>
  C10. \<open>process_card\<close> works on the card object it is given: what it returns is the
  reference it received, every other object of the store is left as it was, and the
  object itself differs from its former state in the attributes \<open>width\<close>, \<open>height\<close>,
  \<open>center\<close>, \<open>img\<close> and \<open>rank_img\<close> at most; \<open>contour\<close>, \<open>corner_pts\<close>, \<open>best_rank_match\<close>
  and \<open>rank_diff\<close> are unchanged. When the call returns, \<open>width\<close> and \<open>height\<close> are those of
  the bounding rectangle, \<open>center\<close> is the centre of the corner points, \<open>img\<close> is the
  flattened image, and \<open>rank_img\<close> is the glyph when a glyph contour was found and its
  former value when none was.
\<close>

theorem process_card_frame:
  assumes "process_card cv this_card im st = (res, st')"
  shows "(\<forall>r. res = Inr r \<longrightarrow> r = this_card) \<and>
     (\<forall>r. r \<noteq> this_card \<longrightarrow> st' r = st r) \<and>
     st' this_card = (st this_card)\<lparr>width := width (st' this_card),
        height := height (st' this_card), center := center (st' this_card),
        img := img (st' this_card), rank_img := rank_img (st' this_card)\<rparr> \<and>
     contour (st' this_card) = contour (st this_card) \<and>
     corner_pts (st' this_card) = corner_pts (st this_card) \<and>
     best_rank_match (st' this_card) = best_rank_match (st this_card) \<and>
     rank_diff (st' this_card) = rank_diff (st this_card) \<and>
     (\<forall>r. res = Inr r \<longrightarrow>
        (\<exists>x y w h warp.
           boundingRect (contour (st this_card)) = Inr (x, y, w, h) \<and>
           width (st' this_card) = Some w \<and> height (st' this_card) = Some h \<and>
           card_center (corner_pts (st this_card)) = Inr (center (st' this_card)) \<and>
           flattener cv im (corner_pts (st this_card)) w h = Inr warp \<and>
           img (st' this_card) = Some warp \<and>
           (case extract_rank cv warp of
              Inl e \<Rightarrow> False
            | Inr None \<Rightarrow> rank_img (st' this_card) = rank_img (st this_card)
            | Inr (Some g) \<Rightarrow> rank_img (st' this_card) = Some g)))"
  using assms process_card_cases[of st this_card cv im]
  by (elim disjE exE conjE) auto

theorem process_card_frame_witness:
  "process_card (test_cv glyph_scene) 0 (blank_image 480 640 3) (fresh_store demo_card)
     = (fst demo_run, snd demo_run) \<and>
   fst demo_run = Inr 0 \<and>
   snd demo_run 1 = demo_card \<and>
   contour (snd demo_run 0) = contour demo_card \<and>
   corner_pts (snd demo_run 0) = corner_pts demo_card \<and>
   best_rank_match (snd demo_run 0) = ''Unknown'' \<and>
   rank_diff (snd demo_run 0) = 0 \<and>
   width (snd demo_run 0) = Some 51 \<and> height (snd demo_run 0) = Some 71 \<and>
   center (snd demo_run 0) = [25, 35]"
proof -
  have h: "process_card (test_cv glyph_scene) 0 (blank_image 480 640 3) (fresh_store demo_card)
     = (fst demo_run, snd demo_run)"
    by (simp add: demo_run_def)
  have d: "best_rank_match demo_card = ''Unknown''" "rank_diff demo_card = 0"
    "fresh_store demo_card 0 = demo_card" "fresh_store demo_card 1 = demo_card"
    by (simp_all add: demo_card_def new_card_def card_init_def fresh_store_def)
  show ?thesis
    using h process_card_frame[OF h] demo_run_ok demo_run_fields d
    by simp
qed

section \<open>Template library\<close>

text \<open>
  C9, as stated, fails: with every template file missing, \<open>load_ranks\<close> still returns
  thirteen entries, each without an image.
\<close>

theorem load_ranks_missing_counterexample:
  "length (load_ranks no_files ''card_images'') = 13 \<and>
   map template_img (load_ranks no_files ''card_images'') = replicate 13 None"
  by (simp add: load_ranks_def load_ranks_loop_eq comp_def no_files_def rank_names_def
      numeral_eq_Suc)

text \<open>
  C9, amended. \<open>load_ranks\<close> never fails and checks nothing: whatever files exist, it
  returns exactly thirteen entries, named Ace to King in that order, and the image of
  each entry is what reading \<open>path/name.jpg\<close> gave, which is nothing for a file that is
  missing or unreadable.
\<close>

theorem load_ranks_never_fails:
  "length (load_ranks imread path) = 13 \<and>
   map rank (load_ranks imread path) = rank_names \<and>
   map template_img (load_ranks imread path) =
     map (\<lambda>name. imread (os_path_join path (name @ ''.jpg''))) rank_names"
  by (simp add: load_ranks_def load_ranks_loop_eq comp_def) (simp add: rank_names_def)

theorem load_ranks_never_fails_witness:
  "length (load_ranks all_files ''card_images'') = 13 \<and>
   map rank (load_ranks all_files ''card_images'') = rank_names \<and>
   map template_img (load_ranks all_files ''card_images'') =
     replicate 13 (Some (blank_image 125 70 1))"
  using load_ranks_never_fails[of all_files "''card_images''"]
  by (simp add: all_files_def rank_names_def numeral_eq_Suc)

end
